theory Spec2Isabelle
  imports Complex_Main
begin

section \<open>The trial event extractor of get\_presentation\_timings.py\<close>

text \<open>
  The embedding follows \<^verbatim>\<open>parse_log_file\<close> statement by statement. The function is
  modelled from the point where \<^verbatim>\<open>pd.read_csv\<close> has returned the table: a list of
  rows with the three columns the function reads. The \<^verbatim>\<open>Time\<close> column holds integers;
  the \<^verbatim>\<open>onset\<close> and \<^verbatim>\<open>duration\<close> columns are quotients, taken here as exact
  rationals. A cell of the \<^verbatim>\<open>duration\<close> column that pandas leaves as NaN is
  \<open>None\<close>. Names are ASCII text, on which \<^verbatim>\<open>str.upper\<close> maps \<^verbatim>\<open>a..z\<close> to
  \<^verbatim>\<open>A..Z\<close> and leaves every other character as it is.
\<close>

subsection \<open>Data\<close>

record log_row =
  Trial :: int
  name :: string
  Time :: int

record trial_event =
  trial_num :: int
  trial_type :: string
  onset :: rat
  duration :: "rat option"

text \<open>
  The two ways the function raises after loading: the \<^verbatim>\<open>ValueError\<close> of the marker
  check, which carries the list \<^verbatim>\<open>missing\<close> its message prints, and the
  \<^verbatim>\<open>IndexError\<close> of \<^verbatim>\<open>filtered_data.index[-1]\<close> on an empty table.
\<close>

datatype error = ValueError "string list" | IndexError

text \<open>
  A normal return: the table, and the warnings logged on the way, each with the set
  \<^verbatim>\<open>missing_types\<close> it prints.
\<close>

record outcome =
  events :: "trial_event list"
  warnings :: "string set list"

subsection \<open>Case normalisation\<close>

definition upper_char :: "char \<Rightarrow> char" where
  "upper_char c =
     (let n = (of_char c :: nat)
      in if 97 \<le> n \<and> n \<le> 122 then char_of (n - 32) else c)"

definition str_upper :: "string \<Rightarrow> string" where
  "str_upper s = map upper_char s"

subsection \<open>The steps of parse\_log\_file\<close>

text \<open>\<^verbatim>\<open>data['name(str)'] = data['name(str)'].str.upper()\<close>\<close>

definition upper_names :: "log_row list \<Rightarrow> log_row list" where
  "upper_names data = map (\<lambda>r. r\<lparr>name := str_upper (name r)\<rparr>) data"

text \<open>\<^verbatim>\<open>data['name(str)'].values\<close>\<close>

definition name_values :: "log_row list \<Rightarrow> string list" where
  "name_values data = map name data"

text \<open>\<^verbatim>\<open>data.loc[data['name(str)'] == m, 'Time'].iloc[0]\<close>; the caller has checked
  that \<open>m\<close> occurs, so the selection is not empty.\<close>

definition first_time :: "log_row list \<Rightarrow> string \<Rightarrow> int" where
  "first_time data m = Time (hd (filter (\<lambda>r. name r = m) data))"

text \<open>The selection of the three columns, their renaming and the adjustment of
  \<^verbatim>\<open>onset\<close>: \<^verbatim>\<open>(filtered_data['onset'] - start_time) / 10000\<close>.\<close>

definition project_row :: "int \<Rightarrow> log_row \<Rightarrow> trial_event" where
  "project_row start_time r =
     \<lparr>trial_num = Trial r, trial_type = name r,
      onset = of_int (Time r - start_time) / 10000, duration = None\<rparr>"

text \<open>\<^verbatim>\<open>Series.diff(-1)\<close>: each value minus the following one, NaN in the last cell.\<close>

fun diff_m1 :: "rat list \<Rightarrow> rat option list" where
  "diff_m1 [] = []"
| "diff_m1 [x] = [None]"
| "diff_m1 (x # y # zs) = Some (x - y) # diff_m1 (y # zs)"

text \<open>\<^verbatim>\<open>filtered_data['duration'] = filtered_data['onset'].diff(-1).abs()\<close>\<close>

definition set_durations :: "trial_event list \<Rightarrow> trial_event list" where
  "set_durations tbl =
     map (\<lambda>(e, d). e\<lparr>duration := map_option abs d\<rparr>) (zip tbl (diff_m1 (map onset tbl)))"

text \<open>\<^verbatim>\<open>filtered_data.at[last_index, 'duration'] =
  (end_time - filtered_data.at[last_index, 'onset'] * 10000) / 10000\<close>, for a table that
  has a last row.\<close>

definition set_last_duration :: "int \<Rightarrow> trial_event list \<Rightarrow> trial_event list" where
  "set_last_duration end_time tbl =
     tbl[length tbl - 1 :=
       (last tbl)\<lparr>duration := Some ((of_int end_time - onset (last tbl) * 10000) / 10000)\<rparr>]"

text \<open>The removal of the marker rows from the final table.\<close>

definition drop_markers :: "string \<Rightarrow> string \<Rightarrow> trial_event list \<Rightarrow> trial_event list" where
  "drop_markers start_trial_type end_trial_type tbl =
     filter (\<lambda>e. trial_type e \<noteq> start_trial_type \<and> trial_type e \<noteq> end_trial_type) tbl"

subsection \<open>parse\_log\_file\<close>

definition parse_log_file ::
  "log_row list \<Rightarrow> string \<Rightarrow> string \<Rightarrow> string list \<Rightarrow> error + outcome" where
  "parse_log_file loaded start_arg end_arg types_arg =
     (let data = upper_names loaded;
          start_trial_type = str_upper start_arg;
          end_trial_type = str_upper end_arg
      in if start_trial_type \<notin> set (name_values data) \<or> end_trial_type \<notin> set (name_values data)
         then Inl (ValueError (filter (\<lambda>trial. trial \<notin> set (name_values data))
                                 [start_trial_type, end_trial_type]))
         else
           let trial_types = map str_upper types_arg;
               missing_types = set trial_types - set (name_values data);
               logged = (if missing_types \<noteq> {} then [missing_types] else []);
               relevant_trials = set trial_types \<union> {start_trial_type, end_trial_type};
               filtered_data = filter (\<lambda>r. name r \<in> relevant_trials) data;
               start_time = first_time data start_trial_type;
               end_time = first_time data end_trial_type;
               tbl = set_durations (map (project_row start_time) filtered_data)
           in if tbl = [] then Inl IndexError
              else Inr \<lparr>events = drop_markers start_trial_type end_trial_type
                                   (set_last_duration end_time tbl),
                        warnings = logged\<rparr>)"

subsection \<open>Notions used to state the properties\<close>

text \<open>The condition under which the marker check lets the function continue.\<close>

definition both_present :: "log_row list \<Rightarrow> string \<Rightarrow> string \<Rightarrow> bool" where
  "both_present loaded start_arg end_arg \<longleftrightarrow>
     str_upper start_arg \<in> set (name_values (upper_names loaded)) \<and>
     str_upper end_arg \<in> set (name_values (upper_names loaded))"

text \<open>The value of \<^verbatim>\<open>filtered_data\<close> just before the marker rows are removed: the
  retained rows, markers included, with their onsets and durations.\<close>

definition marked_table ::
  "log_row list \<Rightarrow> string \<Rightarrow> string \<Rightarrow> string list \<Rightarrow> trial_event list" where
  "marked_table loaded start_arg end_arg types_arg =
     (let data = upper_names loaded;
          relevant_trials =
            set (map str_upper types_arg) \<union> {str_upper start_arg, str_upper end_arg}
      in set_last_duration (first_time data (str_upper end_arg))
           (set_durations (map (project_row (first_time data (str_upper start_arg)))
              (filter (\<lambda>r. name r \<in> relevant_trials) data))))"

text \<open>The warnings of a call that passes the marker check.\<close>

definition missing_warning :: "log_row list \<Rightarrow> string list \<Rightarrow> string set list" where
  "missing_warning loaded types_arg =
     (let missing_types =
            set (map str_upper types_arg) - set (name_values (upper_names loaded))
      in if missing_types \<noteq> {} then [missing_types] else [])"

text \<open>The log of the specification's example.\<close>

definition example_log :: "log_row list" where
  "example_log =
     [\<lparr>Trial = 1, name = ''FMRI_T0'', Time = 1000000\<rparr>,
      \<lparr>Trial = 1, name = ''VAS'', Time = 1050000\<rparr>,
      \<lparr>Trial = 2, name = ''PAIN'', Time = 1080000\<rparr>,
      \<lparr>Trial = 3, name = ''END'', Time = 1100000\<rparr>]"

text \<open>A log with repeated markers, mixed case, a row of no requested type, and rows
  after the first end marker.\<close>

definition late_row_log :: "log_row list" where
  "late_row_log =
     [\<lparr>Trial = 1, name = ''fmri_t0'', Time = 1000000\<rparr>,
      \<lparr>Trial = 1, name = ''vas'', Time = 1050000\<rparr>,
      \<lparr>Trial = 2, name = ''FMRI_T0'', Time = 1060000\<rparr>,
      \<lparr>Trial = 2, name = ''filler'', Time = 1070000\<rparr>,
      \<lparr>Trial = 3, name = ''End'', Time = 1100000\<rparr>,
      \<lparr>Trial = 4, name = ''Pain'', Time = 1120000\<rparr>,
      \<lparr>Trial = 5, name = ''END'', Time = 1300000\<rparr>,
      \<lparr>Trial = 6, name = ''VAS'', Time = 1310000\<rparr>]"

text \<open>The log of the example with names in other letter cases.\<close>

definition example_log_lower :: "log_row list" where
  "example_log_lower =
     [\<lparr>Trial = 1, name = ''fmri_t0'', Time = 1000000\<rparr>,
      \<lparr>Trial = 1, name = ''vas'', Time = 1050000\<rparr>,
      \<lparr>Trial = 2, name = ''Pain'', Time = 1080000\<rparr>,
      \<lparr>Trial = 3, name = ''end'', Time = 1100000\<rparr>]"

subsection \<open>Case normalisation: basic facts\<close>

lemma upper_char_idem: "upper_char (upper_char c) = upper_char c"
proof (cases "97 \<le> (of_char c :: nat) \<and> (of_char c :: nat) \<le> 122")
  case True
  then have "((of_char c :: nat) - 32) mod 256 = of_char c - 32"
    by (intro mod_less) arith
  then have img: "(of_char (char_of ((of_char c :: nat) - 32)) :: nat) = of_char c - 32"
    by simp
  from True have below: "\<not> 97 \<le> (of_char c :: nat) - 32"
    by arith
  from True have "upper_char c = char_of ((of_char c :: nat) - 32)"
    by (simp add: upper_char_def Let_def)
  moreover have "upper_char (char_of ((of_char c :: nat) - 32)) = char_of ((of_char c :: nat) - 32)"
    unfolding upper_char_def Let_def img using below by simp
  ultimately show ?thesis
    by simp
next
  case False
  then have "upper_char c = c"
    by (auto simp add: upper_char_def Let_def)
  then show ?thesis
    by simp
qed

lemma str_upper_idem: "str_upper (str_upper s) = str_upper s"
  by (simp add: str_upper_def upper_char_idem)

subsection \<open>The steps, one by one\<close>

lemma length_diff_m1 [simp]: "length (diff_m1 xs) = length xs"
  by (induction xs rule: diff_m1.induct) simp_all

lemma length_set_durations [simp]: "length (set_durations tbl) = length tbl"
  by (simp add: set_durations_def)

lemma set_durations_Nil_iff [simp]: "set_durations tbl = [] \<longleftrightarrow> tbl = []"
  using length_set_durations [of tbl] by (metis length_0_conv)


lemma filter_upper_names:
  "filter (\<lambda>r. P (name r)) (upper_names loaded) =
     upper_names (filter (\<lambda>r. P (str_upper (name r))) loaded)"
  by (simp add: upper_names_def filter_map o_def)

lemma name_values_upper_names:
  "name_values (upper_names loaded) = map (\<lambda>r. str_upper (name r)) loaded"
  by (simp add: name_values_def upper_names_def)


lemma map_zip_fst:
  "length xs = length ys \<Longrightarrow> map (\<lambda>p. f (fst p)) (zip xs ys) = map f xs"
  by (induction xs ys rule: list_induct2) simp_all

lemma map_set_durations:
  assumes "\<And>e d. f (e\<lparr>duration := d\<rparr>) = f e"
  shows "map f (set_durations tbl) = map f tbl"
proof -
  have "map f (set_durations tbl) =
          map (\<lambda>p. f (fst p)) (zip tbl (diff_m1 (map onset tbl)))"
    by (simp add: set_durations_def assms case_prod_unfold o_def)
  then show ?thesis
    by (simp add: map_zip_fst)
qed

lemma map_set_last_duration:
  assumes "\<And>e d. f (e\<lparr>duration := d\<rparr>) = f e" and "tbl \<noteq> []"
  shows "map f (set_last_duration t tbl) = map f tbl"
proof -
  from assms(2) have "(map f tbl) ! (length tbl - 1) = f (last tbl)"
    by (simp add: last_conv_nth)
  then show ?thesis
    by (simp add: set_last_duration_def map_update assms(1))
       (metis list_update_id)
qed





subsection \<open>The two outcomes of the marker check\<close>

lemma parse_log_file_present:
  assumes "both_present loaded start_arg end_arg"
  shows "parse_log_file loaded start_arg end_arg types_arg =
           Inr \<lparr>events = drop_markers (str_upper start_arg) (str_upper end_arg)
                             (marked_table loaded start_arg end_arg types_arg),
                warnings = missing_warning loaded types_arg\<rparr>"
proof -
  let ?data = "upper_names loaded"
  let ?rel = "set (map str_upper types_arg) \<union> {str_upper start_arg, str_upper end_arg}"
  from assms have "str_upper start_arg \<in> name ` set ?data"
    by (simp add: both_present_def name_values_def)
  then obtain r where "r \<in> set ?data" "name r = str_upper start_arg"
    by auto
  then have "r \<in> set (filter (\<lambda>r. name r \<in> ?rel) ?data)"
    by simp
  then have "filter (\<lambda>r. name r \<in> ?rel) ?data \<noteq> []"
    by (metis empty_iff empty_set)
  then have "set_durations (map (project_row (first_time ?data (str_upper start_arg)))
      (filter (\<lambda>r. name r \<in> ?rel) ?data)) \<noteq> []"
    by simp
  with assms show ?thesis
    unfolding parse_log_file_def marked_table_def missing_warning_def both_present_def Let_def
    by simp
qed

lemma parse_log_file_absent:
  assumes "\<not> both_present loaded start_arg end_arg"
  shows "parse_log_file loaded start_arg end_arg types_arg =
           Inl (ValueError (filter (\<lambda>trial. trial \<notin> set (name_values (upper_names loaded)))
                              [str_upper start_arg, str_upper end_arg]))"
  using assms unfolding parse_log_file_def both_present_def Let_def
  by (simp only: de_Morgan_conj if_True)

text \<open>The \<^verbatim>\<open>IndexError\<close> of the empty table is never raised: a table that passed the
  marker check holds the marker rows.\<close>

lemma parse_log_file_no_IndexError:
  "parse_log_file loaded start_arg end_arg types_arg \<noteq> Inl IndexError"
proof (cases "both_present loaded start_arg end_arg")
  case True
  then show ?thesis
    by (simp add: parse_log_file_present)
next
  case False
  then show ?thesis
    by (simp add: parse_log_file_absent)
qed

subsection \<open>The table before the marker rows are removed\<close>

lemma marked_table_columns:
  assumes "both_present loaded start_arg end_arg"
  shows "map (\<lambda>ev. (trial_num ev, trial_type ev, onset ev))
           (marked_table loaded start_arg end_arg types_arg) =
         map (\<lambda>r. (Trial r, str_upper (name r),
                    of_int (Time r - first_time (upper_names loaded) (str_upper start_arg)) / 10000))
           (filter (\<lambda>r. str_upper (name r) \<in>
                      set (map str_upper types_arg) \<union> {str_upper start_arg, str_upper end_arg})
              loaded)"
proof -
  let ?rel = "set (map str_upper types_arg) \<union> {str_upper start_arg, str_upper end_arg}"
  let ?kept = "filter (\<lambda>r. str_upper (name r) \<in> ?rel) loaded"
  let ?st = "first_time (upper_names loaded) (str_upper start_arg)"
  let ?tbl = "set_durations (map (project_row ?st) (upper_names ?kept))"
  let ?f = "\<lambda>ev. (trial_num ev, trial_type ev, onset ev)"
  have T: "marked_table loaded start_arg end_arg types_arg =
             set_last_duration (first_time (upper_names loaded) (str_upper end_arg)) ?tbl"
    unfolding marked_table_def Let_def
    by (simp only: filter_upper_names [of "\<lambda>n. n \<in> ?rel"])
  from assms have "str_upper start_arg \<in> (\<lambda>r. str_upper (name r)) ` set loaded"
    by (simp add: both_present_def name_values_upper_names)
  then have "?kept \<noteq> []"
    by (auto simp add: filter_empty_conv)
  then have ne: "?tbl \<noteq> []"
    by (simp add: upper_names_def)
  have "map ?f (set_last_duration (first_time (upper_names loaded) (str_upper end_arg)) ?tbl)
          = map ?f ?tbl"
    by (rule map_set_last_duration [OF _ ne]) simp
  also have "\<dots> = map ?f (map (project_row ?st) (upper_names ?kept))"
    by (rule map_set_durations) simp
  also have "\<dots> = map (\<lambda>r. (Trial r, str_upper (name r), of_int (Time r - ?st) / 10000)) ?kept"
    by (simp add: upper_names_def project_row_def o_def)
  finally show ?thesis
    by (simp only: T)
qed


lemma marked_table_unfold:
  "marked_table loaded start_arg end_arg types_arg =
     set_last_duration (first_time (upper_names loaded) (str_upper end_arg))
       (set_durations
          (map (project_row (first_time (upper_names loaded) (str_upper start_arg)))
             (filter (\<lambda>r. name r \<in> set (map str_upper types_arg) \<union>
                                    {str_upper start_arg, str_upper end_arg})
                (upper_names loaded))))"
  by (simp add: marked_table_def Let_def)








lemma drop_markers_columns:
  "map (\<lambda>ev. (trial_num ev, trial_type ev, onset ev)) (drop_markers s e tbl) =
     filter (\<lambda>c. fst (snd c) \<noteq> s \<and> fst (snd c) \<noteq> e)
       (map (\<lambda>ev. (trial_num ev, trial_type ev, onset ev)) tbl)"
  by (simp add: drop_markers_def filter_map o_def)

lemma events_columns:
  assumes "both_present loaded start_arg end_arg"
  shows "map (\<lambda>ev. (trial_num ev, trial_type ev, onset ev))
           (drop_markers (str_upper start_arg) (str_upper end_arg)
              (marked_table loaded start_arg end_arg types_arg)) =
         map (\<lambda>r. (Trial r, str_upper (name r),
                    of_int (Time r - first_time (upper_names loaded) (str_upper start_arg)) / 10000))
           (filter (\<lambda>r. str_upper (name r) \<in> set (map str_upper types_arg) \<and>
                         str_upper (name r) \<noteq> str_upper start_arg \<and>
                         str_upper (name r) \<noteq> str_upper end_arg)
              loaded)"
proof -
  have "filter (\<lambda>r. str_upper (name r) \<noteq> str_upper start_arg \<and>
                     str_upper (name r) \<noteq> str_upper end_arg)
          (filter (\<lambda>r. str_upper (name r) \<in>
                      set (map str_upper types_arg) \<union> {str_upper start_arg, str_upper end_arg})
              loaded) =
        filter (\<lambda>r. str_upper (name r) \<in> set (map str_upper types_arg) \<and>
                         str_upper (name r) \<noteq> str_upper start_arg \<and>
                         str_upper (name r) \<noteq> str_upper end_arg)
              loaded"
    by (auto intro: filter_cong)
  then show ?thesis
    by (simp add: drop_markers_columns marked_table_columns [OF assms] filter_map o_def)
qed


subsection \<open>The table and the requested types\<close>

lemma marked_table_cong:
  assumes "\<And>n. n \<in> set (name_values (upper_names loaded)) \<Longrightarrow>
             n \<in> set (map str_upper ts) \<union> {str_upper start_arg, str_upper end_arg} \<longleftrightarrow>
             n \<in> set (map str_upper ts') \<union> {str_upper start_arg, str_upper end_arg}"
  shows "marked_table loaded start_arg end_arg ts = marked_table loaded start_arg end_arg ts'"
proof -
  have "filter (\<lambda>r. name r \<in> set (map str_upper ts) \<union> {str_upper start_arg, str_upper end_arg})
          (upper_names loaded) =
        filter (\<lambda>r. name r \<in> set (map str_upper ts') \<union> {str_upper start_arg, str_upper end_arg})
          (upper_names loaded)"
  proof (rule filter_cong [OF refl])
    fix r
    assume "r \<in> set (upper_names loaded)"
    then have "name r \<in> set (name_values (upper_names loaded))"
      by (simp add: name_values_def)
    then show "name r \<in> set (map str_upper ts) \<union> {str_upper start_arg, str_upper end_arg} \<longleftrightarrow>
               name r \<in> set (map str_upper ts') \<union> {str_upper start_arg, str_upper end_arg}"
      by (rule assms)
  qed
  then show ?thesis
    by (simp only: marked_table_unfold)
qed

lemma events_not_Nil:
  assumes "both_present loaded start_arg end_arg"
    and "t \<in> set types_arg"
    and "str_upper t \<in> set (name_values (upper_names loaded))"
    and "str_upper t \<noteq> str_upper start_arg" and "str_upper t \<noteq> str_upper end_arg"
  shows "drop_markers (str_upper start_arg) (str_upper end_arg)
           (marked_table loaded start_arg end_arg types_arg) \<noteq> []"
proof -
  let ?P = "\<lambda>r. str_upper (name r) \<in> set (map str_upper types_arg) \<and>
                         str_upper (name r) \<noteq> str_upper start_arg \<and>
                         str_upper (name r) \<noteq> str_upper end_arg"
  from assms(3) obtain r where "r \<in> set loaded" "str_upper (name r) = str_upper t"
    by (auto simp add: name_values_upper_names)
  with assms(2,4,5) have "r \<in> set (filter ?P loaded)"
    by simp
  then have "filter ?P loaded \<noteq> []"
    by (metis empty_iff empty_set)
  then have "map (\<lambda>ev. (trial_num ev, trial_type ev, onset ev))
           (drop_markers (str_upper start_arg) (str_upper end_arg)
              (marked_table loaded start_arg end_arg types_arg)) \<noteq> []"
    by (simp only: events_columns [OF assms(1)] map_is_Nil_conv not_False_eq_True)
  then show ?thesis
    by simp
qed

lemma upper_names_columns:
  "upper_names loaded =
     map (\<lambda>c. \<lparr>Trial = fst c, name = fst (snd c), Time = snd (snd c)\<rparr>)
       (map (\<lambda>r. (Trial r, str_upper (name r), Time r)) loaded)"
  by (simp add: upper_names_def o_def)

lemma events_upper:
  assumes "both_present loaded start_arg end_arg"
    and "ev \<in> set (drop_markers (str_upper start_arg) (str_upper end_arg)
                  (marked_table loaded start_arg end_arg types_arg))"
  shows "\<exists>r \<in> set loaded. trial_type ev = str_upper (name r)"
proof -
  let ?f = "\<lambda>ev. (trial_num ev, trial_type ev, onset ev)"
  from assms(2) have "?f ev \<in> set (map ?f (drop_markers (str_upper start_arg) (str_upper end_arg)
                  (marked_table loaded start_arg end_arg types_arg)))"
    by (simp only: set_map) (rule imageI)
  then show ?thesis
    by (auto simp add: events_columns [OF assms(1)])
qed

subsection \<open>Exclusion of the marker rows\<close>

text \<open>
  C1: when the log contains both the start marker and the end marker, the function
  returns normally and no row of the returned table has a \<^verbatim>\<open>trial_type\<close> equal to the
  upper-cased start marker or end marker, whatever the requested trial types are, the
  markers themselves included.
\<close>

theorem markers_excluded:
  assumes "both_present loaded start_arg end_arg"
  shows "\<exists>out. parse_log_file loaded start_arg end_arg types_arg = Inr out \<and>
           (\<forall>ev \<in> set (events out).
              trial_type ev \<noteq> str_upper start_arg \<and> trial_type ev \<noteq> str_upper end_arg)"
  by (simp add: parse_log_file_present [OF assms] drop_markers_def)

theorem markers_excluded_witness:
  "both_present late_row_log ''fMRI_T0'' ''END'' \<and>
   (\<exists>out. parse_log_file late_row_log ''fMRI_T0'' ''END'' [''VAS'', ''end'', ''Fmri_t0''] = Inr out \<and>
      (\<forall>ev \<in> set (events out).
         trial_type ev \<noteq> str_upper ''fMRI_T0'' \<and> trial_type ev \<noteq> str_upper ''END''))"
proof -
  have h: "both_present late_row_log ''fMRI_T0'' ''END''"
    by code_simp
  from h markers_excluded [OF h, of "[''VAS'', ''end'', ''Fmri_t0'']"] show ?thesis
    by (rule conjI)
qed

subsection \<open>The error of the marker check\<close>

text \<open>
  C5: when the start marker, the end marker, or both do not occur in the upper-cased
  name column, the function raises the \<^verbatim>\<open>ValueError\<close> and returns no table; the
  list its message prints is not empty and holds exactly the upper-cased markers that
  do not occur.
\<close>

theorem missing_marker_raises:
  assumes "\<not> both_present loaded start_arg end_arg"
  shows "\<exists>missing. parse_log_file loaded start_arg end_arg types_arg = Inl (ValueError missing) \<and>
           missing \<noteq> [] \<and>
           set missing = {m. (m = str_upper start_arg \<or> m = str_upper end_arg) \<and>
                             m \<notin> set (map (\<lambda>r. str_upper (name r)) loaded)}"
proof -
  let ?names = "set (name_values (upper_names loaded))"
  let ?missing = "filter (\<lambda>trial. trial \<notin> ?names) [str_upper start_arg, str_upper end_arg]"
  have "parse_log_file loaded start_arg end_arg types_arg = Inl (ValueError ?missing)"
    by (rule parse_log_file_absent [OF assms])
  moreover from assms have "?missing \<noteq> []"
    by (auto simp add: both_present_def)
  moreover have "set ?missing = {m. (m = str_upper start_arg \<or> m = str_upper end_arg) \<and>
                             m \<notin> set (map (\<lambda>r. str_upper (name r)) loaded)}"
    by (auto simp add: name_values_upper_names)
  ultimately show ?thesis
    by blast
qed

theorem missing_marker_raises_witness:
  "\<not> both_present example_log ''start'' ''End'' \<and>
   (\<exists>missing. parse_log_file example_log ''start'' ''End'' [''VAS''] = Inl (ValueError missing) \<and>
           missing \<noteq> [] \<and>
           set missing = {m. (m = str_upper ''start'' \<or> m = str_upper ''End'') \<and>
                             m \<notin> set (map (\<lambda>r. str_upper (name r)) example_log)})"
proof -
  have h: "\<not> both_present example_log ''start'' ''End''"
    by code_simp
  from h missing_marker_raises [OF h, of "[''VAS'']"] show ?thesis
    by (rule conjI)
qed


subsection \<open>Onsets\<close>



subsection \<open>Durations\<close>



subsection \<open>Requested types that the log does not contain\<close>

text \<open>
  C6: when the log contains both markers and some requested trial type does not occur
  in it, the function does not raise. It logs one warning, with the set of the
  upper-cased requested types that do not occur, and returns the rows it returns
  when called with only the requested types that do occur. The returned table is
  not empty when some requested type that is not a marker occurs in the log.
\<close>

theorem absent_types_only_warn:
  assumes "both_present loaded start_arg end_arg"
    and "\<exists>t \<in> set types_arg. str_upper t \<notin> set (map (\<lambda>r. str_upper (name r)) loaded)"
  shows "\<exists>out out'.
           parse_log_file loaded start_arg end_arg types_arg = Inr out \<and>
           warnings out =
             [set (map str_upper types_arg) - set (map (\<lambda>r. str_upper (name r)) loaded)] \<and>
           parse_log_file loaded start_arg end_arg
             (filter (\<lambda>t. str_upper t \<in> set (map (\<lambda>r. str_upper (name r)) loaded)) types_arg)
             = Inr out' \<and>
           events out = events out' \<and>
           ((\<exists>t \<in> set types_arg.
               str_upper t \<in> set (map (\<lambda>r. str_upper (name r)) loaded) \<and>
               str_upper t \<noteq> str_upper start_arg \<and> str_upper t \<noteq> str_upper end_arg) \<longrightarrow>
            events out \<noteq> [])"
proof -
  let ?S = "str_upper start_arg" and ?E = "str_upper end_arg"
  let ?names = "set (map (\<lambda>r. str_upper (name r)) loaded)"
  let ?found = "filter (\<lambda>t. str_upper t \<in> ?names) types_arg"
  let ?out = "\<lparr>events = drop_markers ?S ?E (marked_table loaded start_arg end_arg types_arg),
               warnings = missing_warning loaded types_arg\<rparr>"
  let ?out' = "\<lparr>events = drop_markers ?S ?E (marked_table loaded start_arg end_arg ?found),
               warnings = missing_warning loaded ?found\<rparr>"
  have run: "parse_log_file loaded start_arg end_arg types_arg = Inr ?out"
    by (rule parse_log_file_present [OF assms(1)])
  have run': "parse_log_file loaded start_arg end_arg ?found = Inr ?out'"
    by (rule parse_log_file_present [OF assms(1)])
  from assms(2) have "set (map str_upper types_arg) - ?names \<noteq> {}"
    by auto
  then have warn: "warnings ?out = [set (map str_upper types_arg) - ?names]"
    by (simp add: missing_warning_def name_values_upper_names Let_def)
  have found: "set (map str_upper ?found) = set (map str_upper types_arg) \<inter> ?names"
    by auto
  have "marked_table loaded start_arg end_arg types_arg =
        marked_table loaded start_arg end_arg ?found"
  proof (rule marked_table_cong)
    fix n
    assume "n \<in> set (name_values (upper_names loaded))"
    then have "n \<in> ?names"
      by (simp only: name_values_upper_names)
    then show "n \<in> set (map str_upper types_arg) \<union> {?S, ?E} \<longleftrightarrow>
               n \<in> set (map str_upper ?found) \<union> {?S, ?E}"
      unfolding found by blast
  qed
  then have same: "events ?out = events ?out'"
    by simp
  have some: "events ?out \<noteq> []"
    if "\<exists>t \<in> set types_arg. str_upper t \<in> ?names \<and> str_upper t \<noteq> ?S \<and> str_upper t \<noteq> ?E"
  proof -
    from that obtain t where "t \<in> set types_arg" "str_upper t \<in> ?names"
      "str_upper t \<noteq> ?S" "str_upper t \<noteq> ?E"
      by blast
    then show ?thesis
      using events_not_Nil [OF assms(1), of t types_arg]
      by (simp add: name_values_upper_names)
  qed
  from run warn run' same some show ?thesis
    by blast
qed

theorem absent_types_only_warn_witness:
  "both_present late_row_log ''fMRI_T0'' ''END'' \<and>
   (\<exists>t \<in> set [''VAS'', ''flanker'', ''PAIN''].
      str_upper t \<notin> set (map (\<lambda>r. str_upper (name r)) late_row_log)) \<and>
   (\<exists>t \<in> set [''VAS'', ''flanker'', ''PAIN''].
      str_upper t \<in> set (map (\<lambda>r. str_upper (name r)) late_row_log) \<and>
      str_upper t \<noteq> str_upper ''fMRI_T0'' \<and> str_upper t \<noteq> str_upper ''END'') \<and>
   (\<exists>out out'.
      parse_log_file late_row_log ''fMRI_T0'' ''END'' [''VAS'', ''flanker'', ''PAIN''] = Inr out \<and>
      warnings out =
        [set (map str_upper [''VAS'', ''flanker'', ''PAIN'']) -
         set (map (\<lambda>r. str_upper (name r)) late_row_log)] \<and>
      parse_log_file late_row_log ''fMRI_T0'' ''END''
        (filter (\<lambda>t. str_upper t \<in> set (map (\<lambda>r. str_upper (name r)) late_row_log))
           [''VAS'', ''flanker'', ''PAIN''])
        = Inr out' \<and>
      events out = events out' \<and>
      ((\<exists>t \<in> set [''VAS'', ''flanker'', ''PAIN''].
          str_upper t \<in> set (map (\<lambda>r. str_upper (name r)) late_row_log) \<and>
          str_upper t \<noteq> str_upper ''fMRI_T0'' \<and> str_upper t \<noteq> str_upper ''END'') \<longrightarrow>
       events out \<noteq> []))"
proof -
  have h: "both_present late_row_log ''fMRI_T0'' ''END''"
    by code_simp
  have a: "\<exists>t \<in> set [''VAS'', ''flanker'', ''PAIN''].
      str_upper t \<notin> set (map (\<lambda>r. str_upper (name r)) late_row_log)"
    by code_simp
  have p: "\<exists>t \<in> set [''VAS'', ''flanker'', ''PAIN''].
      str_upper t \<in> set (map (\<lambda>r. str_upper (name r)) late_row_log) \<and>
      str_upper t \<noteq> str_upper ''fMRI_T0'' \<and> str_upper t \<noteq> str_upper ''END''"
    by code_simp
  from h a p absent_types_only_warn [OF h a] show ?thesis
    by (intro conjI)
qed

subsection \<open>Letter case\<close>

text \<open>
  C7: two calls whose logs agree row by row up to the letter case of the names, and
  whose start markers, end markers and requested types agree up to letter case, have
  the same result: the same error or the same table and warnings. Every
  \<^verbatim>\<open>trial_type\<close> of a returned table is in upper case.
\<close>

theorem case_insensitive:
  assumes "map (\<lambda>r. (Trial r, str_upper (name r), Time r)) loaded =
           map (\<lambda>r. (Trial r, str_upper (name r), Time r)) loaded'"
    and "str_upper start_arg = str_upper start_arg'"
    and "str_upper end_arg = str_upper end_arg'"
    and "map str_upper types_arg = map str_upper types_arg'"
  shows "parse_log_file loaded start_arg end_arg types_arg =
           parse_log_file loaded' start_arg' end_arg' types_arg' \<and>
         (\<forall>out. parse_log_file loaded start_arg end_arg types_arg = Inr out \<longrightarrow>
            (\<forall>ev \<in> set (events out). trial_type ev = str_upper (trial_type ev)))"
proof
  from assms(1) have "upper_names loaded = upper_names loaded'"
    by (simp only: upper_names_columns)
  with assms(2-4) show "parse_log_file loaded start_arg end_arg types_arg =
           parse_log_file loaded' start_arg' end_arg' types_arg'"
    by (simp only: parse_log_file_def)
next
  show "\<forall>out. parse_log_file loaded start_arg end_arg types_arg = Inr out \<longrightarrow>
            (\<forall>ev \<in> set (events out). trial_type ev = str_upper (trial_type ev))"
  proof (intro allI impI ballI)
    fix out ev
    assume run: "parse_log_file loaded start_arg end_arg types_arg = Inr out"
      and ev: "ev \<in> set (events out)"
    have present: "both_present loaded start_arg end_arg"
    proof (rule ccontr)
      assume "\<not> both_present loaded start_arg end_arg"
      from parse_log_file_absent [OF this, of types_arg] run show False
        by simp
    qed
    from run ev have "ev \<in> set (drop_markers (str_upper start_arg) (str_upper end_arg)
                  (marked_table loaded start_arg end_arg types_arg))"
      by (auto simp add: parse_log_file_present [OF present])
    from events_upper [OF present this] show "trial_type ev = str_upper (trial_type ev)"
      by (auto simp add: str_upper_idem)
  qed
qed

theorem case_insensitive_witness:
  "map (\<lambda>r. (Trial r, str_upper (name r), Time r)) example_log =
     map (\<lambda>r. (Trial r, str_upper (name r), Time r)) example_log_lower \<and>
   str_upper ''fMRI_T0'' = str_upper ''Fmri_t0'' \<and>
   str_upper ''END'' = str_upper ''End'' \<and>
   map str_upper [''VAS'', ''PAIN''] = map str_upper [''vas'', ''pain''] \<and>
   parse_log_file example_log ''fMRI_T0'' ''END'' [''VAS'', ''PAIN''] =
     parse_log_file example_log_lower ''Fmri_t0'' ''End'' [''vas'', ''pain''] \<and>
   (\<exists>out. parse_log_file example_log_lower ''Fmri_t0'' ''End'' [''vas'', ''pain''] = Inr out \<and>
      events out \<noteq> [] \<and>
      (\<forall>ev \<in> set (events out). trial_type ev = str_upper (trial_type ev)))"
proof -
  have a: "map (\<lambda>r. (Trial r, str_upper (name r), Time r)) example_log_lower =
     map (\<lambda>r. (Trial r, str_upper (name r), Time r)) example_log"
    by code_simp
  have b: "str_upper ''Fmri_t0'' = str_upper ''fMRI_T0''"
    by code_simp
  have c: "str_upper ''End'' = str_upper ''END''"
    by code_simp
  have d: "map str_upper [''vas'', ''pain''] = map str_upper [''VAS'', ''PAIN'']"
    by code_simp
  have h: "both_present example_log_lower ''Fmri_t0'' ''End''"
    by code_simp
  have ne: "drop_markers (str_upper ''Fmri_t0'') (str_upper ''End'')
              (marked_table example_log_lower ''Fmri_t0'' ''End'' [''vas'', ''pain'']) \<noteq> []"
    by code_simp
  have e: "\<exists>out. parse_log_file example_log_lower ''Fmri_t0'' ''End'' [''vas'', ''pain''] = Inr out \<and>
      events out \<noteq> []"
    using ne by (simp add: parse_log_file_present [OF h])
  from case_insensitive [OF a b c d] a b c d e show ?thesis
    by (metis (no_types, lifting))
qed

subsection \<open>Order of the onsets\<close>



subsection \<open>A marker among the requested types\<close>

text \<open>
  C9: when a requested trial type equals the start or the end marker up to letter case
  and the log contains both markers, the function returns no row of that type and no
  warning it logs names that type.
\<close>

theorem requested_marker_dropped:
  assumes "both_present loaded start_arg end_arg"
    and "t \<in> set types_arg"
    and "str_upper t = str_upper start_arg \<or> str_upper t = str_upper end_arg"
  shows "\<exists>out. parse_log_file loaded start_arg end_arg types_arg = Inr out \<and>
           (\<forall>ev \<in> set (events out). trial_type ev \<noteq> str_upper t) \<and>
           (\<forall>w \<in> set (warnings out). str_upper t \<notin> w)"
proof -
  from assms(1,3) have "str_upper t \<in> set (name_values (upper_names loaded))"
    by (auto simp add: both_present_def)
  then have "\<forall>w \<in> set (missing_warning loaded types_arg). str_upper t \<notin> w"
    by (simp add: missing_warning_def Let_def)
  moreover from assms(3)
  have "\<forall>ev \<in> set (drop_markers (str_upper start_arg) (str_upper end_arg)
                       (marked_table loaded start_arg end_arg types_arg)).
          trial_type ev \<noteq> str_upper t"
    by (auto simp add: drop_markers_def)
  ultimately show ?thesis
    by (simp add: parse_log_file_present [OF assms(1)])
qed

theorem requested_marker_dropped_witness:
  "both_present late_row_log ''fMRI_T0'' ''END'' \<and>
   ''end'' \<in> set [''VAS'', ''end'', ''flanker''] \<and>
   (str_upper ''end'' = str_upper ''fMRI_T0'' \<or> str_upper ''end'' = str_upper ''END'') \<and>
   (\<exists>out. parse_log_file late_row_log ''fMRI_T0'' ''END'' [''VAS'', ''end'', ''flanker''] = Inr out \<and>
      (\<forall>ev \<in> set (events out). trial_type ev \<noteq> str_upper ''end'') \<and>
      (\<forall>w \<in> set (warnings out). str_upper ''end'' \<notin> w))"
proof -
  have h: "both_present late_row_log ''fMRI_T0'' ''END''"
    by code_simp
  have m: "''end'' \<in> set [''VAS'', ''end'', ''flanker'']"
    by simp
  have u: "str_upper ''end'' = str_upper ''fMRI_T0'' \<or> str_upper ''end'' = str_upper ''END''"
    by code_simp
  from h m u requested_marker_dropped [OF h m u] show ?thesis
    by (intro conjI)
qed

subsection \<open>No requested type in the log\<close>

text \<open>
  C10, as amended: when the log contains both markers and none of the requested trial
  types, the function does not raise and returns the empty table. It logs one warning
  with the set of all upper-cased requested types when at least one type is requested,
  and no warning when none is requested.
\<close>

theorem no_requested_type_present:
  assumes "both_present loaded start_arg end_arg"
    and "\<forall>t \<in> set types_arg. str_upper t \<notin> set (map (\<lambda>r. str_upper (name r)) loaded)"
  shows "parse_log_file loaded start_arg end_arg types_arg =
           Inr \<lparr>events = [],
                warnings = (if types_arg = [] then [] else [set (map str_upper types_arg)])\<rparr>"
proof -
  let ?names = "set (map (\<lambda>r. str_upper (name r)) loaded)"
  let ?P = "\<lambda>r. str_upper (name r) \<in> set (map str_upper types_arg) \<and>
                 str_upper (name r) \<noteq> str_upper start_arg \<and>
                 str_upper (name r) \<noteq> str_upper end_arg"
  have "\<not> ?P r" if r: "r \<in> set loaded" for r
  proof
    assume "?P r"
    then obtain t where t: "t \<in> set types_arg" "str_upper (name r) = str_upper t"
      by auto
    from r have "str_upper (name r) \<in> ?names"
      by simp
    with t assms(2) show False
      by metis
  qed
  then have "filter ?P loaded = []"
    by (simp only: filter_empty_conv) blast
  then have "map (\<lambda>ev. (trial_num ev, trial_type ev, onset ev))
           (drop_markers (str_upper start_arg) (str_upper end_arg)
              (marked_table loaded start_arg end_arg types_arg)) = []"
    by (simp only: events_columns [OF assms(1)] list.map)
  then have none: "drop_markers (str_upper start_arg) (str_upper end_arg)
              (marked_table loaded start_arg end_arg types_arg) = []"
    by simp
  from assms(2) have "set (map str_upper types_arg) - ?names = set (map str_upper types_arg)"
    by auto
  then have "missing_warning loaded types_arg =
               (if types_arg = [] then [] else [set (map str_upper types_arg)])"
    by (simp add: missing_warning_def name_values_upper_names Let_def)
  with none show ?thesis
    by (simp add: parse_log_file_present [OF assms(1)])
qed

theorem no_requested_type_present_witness:
  "both_present example_log ''fMRI_T0'' ''END'' \<and>
   \<not> (\<exists>t \<in> set [''flanker'', ''isi''].
        str_upper t \<in> set (map (\<lambda>r. str_upper (name r)) example_log)) \<and>
   parse_log_file example_log ''fMRI_T0'' ''END'' [''flanker'', ''isi''] =
     Inr \<lparr>events = [], warnings = [set (map str_upper [''flanker'', ''isi''])]\<rparr>"
proof -
  have h: "both_present example_log ''fMRI_T0'' ''END''"
    by code_simp
  have a: "\<forall>t \<in> set [''flanker'', ''isi''].
        str_upper t \<notin> set (map (\<lambda>r. str_upper (name r)) example_log)"
    by code_simp
  from no_requested_type_present [OF h a] h a show ?thesis
    by simp
qed

text \<open>
  The claim as written, that a warning listing the requested types is logged on every
  such call, fails on the call that requests no type: the set of missing types is empty
  and the guard before the warning is not taken.
\<close>

theorem no_requested_type_counterexample:
  "both_present example_log ''fMRI_T0'' ''END'' \<and>
   parse_log_file example_log ''fMRI_T0'' ''END'' [] = Inr \<lparr>events = [], warnings = []\<rparr>"
  by code_simp

subsection \<open>The example of the specification\<close>

text \<open>
  C4: on the log with rows (1, FMRI\_T0, 1000000), (1, VAS, 1050000), (2, PAIN, 1080000),
  (3, END, 1100000), start marker fMRI\_T0, end marker END and trial types (VAS, PAIN),
  the function returns exactly the rows (1, VAS, 5.0, 3.0) and (2, PAIN, 8.0, 2.0), in
  that order, and logs no warning.
\<close>

theorem spec_example:
  "parse_log_file example_log ''fMRI_T0'' ''END'' [''VAS'', ''PAIN''] =
     Inr \<lparr>events =
            [\<lparr>trial_num = 1, trial_type = ''VAS'', onset = 5, duration = Some 3\<rparr>,
             \<lparr>trial_num = 2, trial_type = ''PAIN'', onset = 8, duration = Some 2\<rparr>],
          warnings = []\<rparr>"
  by code_simp

theorem spec_example_witness:
  "map trial_type (events (projr (parse_log_file example_log ''fMRI_T0'' ''END''
     [''VAS'', ''PAIN'']))) = [''VAS'', ''PAIN'']"
  using spec_example by simp

end
